theory Spec2Isabelle
  imports Complex_Main
begin

section \<open>The library lending ledger of \<open>Library Management System.py\<close>\<close>

text \<open>
  The classes \<open>Book\<close>, \<open>Member\<close> and \<open>Library\<close> of the source are embedded as records
  with explicit state passing: a method that mutates \<open>self\<close> becomes a function that
  takes the object and returns the result together with the updated object.

  The source reads the clock with \<open>datetime.now()\<close> inside \<open>Book.issue_book\<close> and
  \<open>Book.return_book\<close>. The value read is the extra argument \<open>now\<close> of the embedded
  functions. A \<open>datetime\<close> is an integer number of microseconds (the resolution of the
  type) on the time line, a \<open>timedelta\<close> the integer difference of two of them.
  The bounds of Python's \<open>datetime\<close> (years 1 to 9999) are not part of the model.
\<close>

subsection \<open>Time\<close>

type_synonym datetime = int
type_synonym timedelta = int

definition day :: timedelta where
  "day = 86400000000"

text \<open>\<open>timedelta(days=n)\<close>.\<close>

definition timedelta_of_days :: "int \<Rightarrow> timedelta" where
  "timedelta_of_days n = n * day"

text \<open>
  The attribute \<open>.days\<close> of a \<open>timedelta\<close>. Python keeps a \<open>timedelta\<close> normalised
  with \<open>0 \<le> seconds < 86400\<close> and \<open>0 \<le> microseconds < 1000000\<close>, so \<open>.days\<close> is
  the floor of the duration divided by one day, also for negative durations.
\<close>

definition days :: "timedelta \<Rightarrow> int" where
  "days d = d div day"

subsection \<open>Results and errors\<close>

text \<open>
  \<open>Book.issue_book\<close> and \<open>Book.return_book\<close> return a success flag with a message;
  \<open>Library\<close> methods print a message and return \<open>False\<close> or \<open>None\<close>. Each failure is
  one constructor:
  \<^item> \<open>NoCopiesAvailable\<close>: \<open>(False, "No copies available")\<close>;
  \<^item> \<open>AlreadyBorrowed\<close>: \<open>(False, "Member already has this book")\<close>;
  \<^item> \<open>NotBorrowedByMember\<close>: \<open>(False, "Book not issued to this member", None)\<close>;
  \<^item> \<open>BookNotFound\<close>, \<open>MemberNotFound\<close>: the \<open>not in self.books\<close> and
    \<open>not in self.members\<close> branches of \<open>Library\<close>;
  \<^item> \<open>InvalidCopyCount\<close>: \<open>ValueError("Number of copies must be positive")\<close>;
  \<^item> \<open>InvalidMemberData\<close>: \<open>ValueError("Name and email cannot be empty")\<close>;
  \<^item> \<open>KeyError\<close>: the uncaught exception of \<open>self.books[existing_book_id]\<close> on a
    missing key.
\<close>

datatype error =
    NoCopiesAvailable
  | AlreadyBorrowed
  | NotBorrowedByMember
  | BookNotFound
  | MemberNotFound
  | InvalidCopyCount
  | InvalidMemberData
  | KeyError

subsection \<open>Class \<open>Book\<close>\<close>

text \<open>The dictionary \<open>issue_record\<close> built by \<open>Book.issue_book\<close>.\<close>

record issue_record =
  rec_member_id :: int
  rec_member_name :: string
  issue_date :: datetime
  due_date :: datetime

text \<open>
  The dictionary \<open>return_info\<close> built by \<open>Book.return_book\<close>. The fine is
  \<open>overdue_days * 1.0\<close>, a float whose value is the integer \<open>overdue_days\<close> exactly
  (the days of a \<open>timedelta\<close> are below \<open>10^9\<close>); it is a rational number here.
\<close>

record return_info =
  days_borrowed :: int
  is_overdue :: bool
  overdue_days :: int
  fine :: rat

record Book =
  book_id :: int
  title :: string
  author :: string
  isbn :: string
  total_copies :: int
  available_copies :: int
  issued_to :: "int \<rightharpoonup> issue_record"

text \<open>
  \<open>Book.__init__\<close> takes its identifier from the class attribute
  \<open>Book.book_id_counter\<close> and increments it; the counter is passed in and the new
  counter is returned.
\<close>

definition Book_init :: "int \<Rightarrow> string \<Rightarrow> string \<Rightarrow> string \<Rightarrow> int \<Rightarrow> Book \<times> int" where
  "Book_init book_id_counter ttl auth isb copies =
     (\<lparr>book_id = book_id_counter, title = ttl, author = auth, isbn = isb,
       total_copies = copies, available_copies = copies, issued_to = Map.empty\<rparr>,
      book_id_counter + 1)"

definition is_available :: "Book \<Rightarrow> bool" where
  "is_available b = (available_copies b > 0)"

text \<open>The loan period \<open>timedelta(days=14)\<close> and the fine of \<open>1.0\<close> per day.\<close>

definition loan_period_days :: int where
  "loan_period_days = 14"

definition daily_fine_rate :: rat where
  "daily_fine_rate = 1"

definition Book_issue_book ::
  "Book \<Rightarrow> int \<Rightarrow> string \<Rightarrow> datetime \<Rightarrow> (error + issue_record) \<times> Book" where
  "Book_issue_book b mid mname now =
     (if \<not> is_available b then (Inl NoCopiesAvailable, b)
      else if issued_to b mid \<noteq> None then (Inl AlreadyBorrowed, b)
      else
        let r = \<lparr>rec_member_id = mid, rec_member_name = mname, issue_date = now,
                 due_date = now + timedelta_of_days loan_period_days\<rparr>
        in (Inr r, b\<lparr>issued_to := (issued_to b)(mid \<mapsto> r),
                      available_copies := available_copies b - 1\<rparr>))"

definition Book_return_book ::
  "Book \<Rightarrow> int \<Rightarrow> datetime \<Rightarrow> (error + return_info) \<times> Book" where
  "Book_return_book b mid now =
     (case issued_to b mid of
        None \<Rightarrow> (Inl NotBorrowedByMember, b)
      | Some r \<Rightarrow>
          let overdue = (now > due_date r);
              od = (if overdue then days (now - due_date r) else 0)
          in (Inr \<lparr>days_borrowed = days (now - issue_date r),
                   is_overdue = overdue,
                   overdue_days = od,
                   fine = (if overdue then of_int od * daily_fine_rate else 0)\<rparr>,
              b\<lparr>issued_to := (issued_to b)(mid := None),
                available_copies := available_copies b + 1\<rparr>))"

subsection \<open>Sequences of calls on one entry\<close>

text \<open>
  A caller of one \<open>Book\<close> object issues and returns copies in any order. A call is
  recorded with its arguments and the clock value it reads; a failed call leaves the
  entry as it was, and the sequence goes on.
\<close>

datatype call = Issue int string datetime | Return int datetime

fun apply_call :: "Book \<Rightarrow> call \<Rightarrow> Book" where
  "apply_call b (Issue mid mname now) = snd (Book_issue_book b mid mname now)"
| "apply_call b (Return mid now) = snd (Book_return_book b mid now)"

fun run_calls :: "Book \<Rightarrow> call list \<Rightarrow> Book" where
  "run_calls b [] = b"
| "run_calls b (c # cs) = run_calls (apply_call b c) cs"

fun is_return_by :: "int \<Rightarrow> call \<Rightarrow> bool" where
  "is_return_by mid (Return m now) = (m = mid)"
| "is_return_by mid (Issue m mname now) = False"

text \<open>
  The copy-count invariant of an entry: the loan records are finitely many, the
  available copies are the total copies minus the number of loan records, and they lie
  between zero and the total.
\<close>

definition active_loans :: "Book \<Rightarrow> int" where
  "active_loans b = int (card (dom (issued_to b)))"

definition entry_inv :: "Book \<Rightarrow> bool" where
  "entry_inv b \<longleftrightarrow>
     finite (dom (issued_to b))
     \<and> available_copies b = total_copies b - active_loans b
     \<and> 0 \<le> available_copies b
     \<and> available_copies b \<le> total_copies b"

text \<open>An entry with one copy, used in the examples below.\<close>

definition one_copy_book :: Book where
  "one_copy_book = fst (Book_init 1 ''Dune'' ''Frank Herbert'' ''9780441013593'' 1)"

definition two_copy_book :: Book where
  "two_copy_book = fst (Book_init 1 ''Emma'' ''Jane Austen'' ''9780141439587'' 2)"

definition example_calls :: "call list" where
  "example_calls =
     [Issue 100 ''Ann'' 0, Issue 100 ''Ann'' 1, Issue 101 ''Bob'' 2, Issue 102 ''Cy'' 3,
      Return 103 4, Return 100 5]"

subsection \<open>String methods\<close>

text \<open>
  \<open>str.strip()\<close>, \<open>str.lower()\<close> and \<open>str.title()\<close> on ASCII text: the white space
  of \<open>strip\<close> is the ASCII characters for which \<open>str.isspace\<close> holds, the cased
  characters are the letters \<open>A\<close> to \<open>Z\<close> and \<open>a\<close> to \<open>z\<close>, which differ in the bit of
  value 32. \<open>title\<close> turns a cased character after an uncased one (or at the start) into
  upper case and a cased character after a cased one into lower case.
\<close>

definition is_space :: "char \<Rightarrow> bool" where
  "is_space c = ((of_char c :: nat) \<in> {9, 10, 11, 12, 13, 28, 29, 30, 31, 32})"

definition is_lower :: "char \<Rightarrow> bool" where
  "is_lower c = (97 \<le> (of_char c :: nat) \<and> (of_char c :: nat) \<le> 122)"

definition is_upper :: "char \<Rightarrow> bool" where
  "is_upper c = (65 \<le> (of_char c :: nat) \<and> (of_char c :: nat) \<le> 90)"

fun with_case_bit :: "bool \<Rightarrow> char \<Rightarrow> char" where
  "with_case_bit v (Char b0 b1 b2 b3 b4 b5 b6 b7) = Char b0 b1 b2 b3 b4 v b6 b7"

definition to_upper :: "char \<Rightarrow> char" where
  "to_upper c = (if is_lower c then with_case_bit False c else c)"

definition to_lower :: "char \<Rightarrow> char" where
  "to_lower c = (if is_upper c then with_case_bit True c else c)"

definition str_strip :: "string \<Rightarrow> string" where
  "str_strip s = rev (dropWhile is_space (rev (dropWhile is_space s)))"

definition str_lower :: "string \<Rightarrow> string" where
  "str_lower s = map to_lower s"

fun title_from :: "bool \<Rightarrow> string \<Rightarrow> string" where
  "title_from previous_is_cased [] = []"
| "title_from previous_is_cased (c # cs) =
     (if previous_is_cased then to_lower c else to_upper c)
       # title_from (is_lower c \<or> is_upper c) cs"

definition str_title :: "string \<Rightarrow> string" where
  "str_title s = title_from False s"

subsection \<open>Classes \<open>Member\<close> and \<open>Library\<close>\<close>

text \<open>
  The identifier counters \<open>Book.book_id_counter\<close> and \<open>Member.member_id_counter\<close> are
  class attributes; they are carried in the state next to the dictionaries of the
  \<open>Library\<close> object. A \<open>Book\<close> or \<open>Member\<close> object reached through a dictionary is
  mutated in place by its methods: the object returned by the embedded method is stored
  back under its key. \<open>Library.issue_book\<close> and \<open>Library.return_book\<close> return a success
  flag and print the record; the embedded functions return the record.
\<close>

record Member =
  member_id :: int
  name :: string
  email :: string
  borrowed_books :: "int list"
  total_fines :: rat

definition Member_init :: "int \<Rightarrow> string \<Rightarrow> string \<Rightarrow> Member \<times> int" where
  "Member_init counter nm em =
     (\<lparr>member_id = counter, name = nm, email = em, borrowed_books = [],
       total_fines = 0\<rparr>,
      counter + 1)"

definition Member_borrow_book :: "Member \<Rightarrow> int \<Rightarrow> Member" where
  "Member_borrow_book m bid = m\<lparr>borrowed_books := borrowed_books m @ [bid]\<rparr>"

definition Member_return_book :: "Member \<Rightarrow> int \<Rightarrow> bool \<times> Member" where
  "Member_return_book m bid =
     (if bid \<in> set (borrowed_books m)
      then (True, m\<lparr>borrowed_books := remove1 bid (borrowed_books m)\<rparr>)
      else (False, m))"

definition Member_add_fine :: "Member \<Rightarrow> rat \<Rightarrow> Member" where
  "Member_add_fine m amount = m\<lparr>total_fines := total_fines m + amount\<rparr>"

record Library =
  library_name :: string
  books :: "int \<rightharpoonup> Book"
  members :: "int \<rightharpoonup> Member"
  isbn_index :: "string \<rightharpoonup> int"
  book_id_counter :: int
  member_id_counter :: int

definition Library_init :: "string \<Rightarrow> int \<Rightarrow> int \<Rightarrow> Library" where
  "Library_init nm book_counter member_counter =
     \<lparr>library_name = nm, books = Map.empty, members = Map.empty,
      isbn_index = Map.empty, book_id_counter = book_counter,
      member_id_counter = member_counter\<rparr>"

definition Library_add_book ::
  "Library \<Rightarrow> string \<Rightarrow> string \<Rightarrow> string \<Rightarrow> int \<Rightarrow> (error + int) \<times> Library" where
  "Library_add_book s title0 author0 isbn0 copies =
     (let ttl = str_title (str_strip title0);
          auth = str_title (str_strip author0);
          isb = str_strip isbn0
      in if copies \<le> 0 then (Inl InvalidCopyCount, s)
         else
           (case isbn_index s isb of
              Some existing_book_id \<Rightarrow>
                (case books s existing_book_id of
                   None \<Rightarrow> (Inl KeyError, s)
                 | Some existing_book \<Rightarrow>
                     (Inr existing_book_id,
                      s\<lparr>books := (books s)(existing_book_id \<mapsto>
                          existing_book\<lparr>total_copies := total_copies existing_book + copies,
                            available_copies := available_copies existing_book + copies\<rparr>)\<rparr>))
            | None \<Rightarrow>
                let (book, counter') = Book_init (book_id_counter s) ttl auth isb copies
                in (Inr (book_id book),
                    s\<lparr>books := (books s)(book_id book \<mapsto> book),
                      isbn_index := (isbn_index s)(isb \<mapsto> book_id book),
                      book_id_counter := counter'\<rparr>)))"

definition Library_register_member ::
  "Library \<Rightarrow> string \<Rightarrow> string \<Rightarrow> (error + int) \<times> Library" where
  "Library_register_member s name0 email0 =
     (let nm = str_title (str_strip name0);
          em = str_lower (str_strip email0)
      in if nm = [] \<or> em = [] then (Inl InvalidMemberData, s)
         else
           let (member, counter') = Member_init (member_id_counter s) nm em
           in (Inr (member_id member),
               s\<lparr>members := (members s)(member_id member \<mapsto> member),
                 member_id_counter := counter'\<rparr>))"

definition Library_issue_book ::
  "Library \<Rightarrow> int \<Rightarrow> int \<Rightarrow> datetime \<Rightarrow> (error + issue_record) \<times> Library" where
  "Library_issue_book s bid mid now =
     (case books s bid of
        None \<Rightarrow> (Inl BookNotFound, s)
      | Some book \<Rightarrow>
          (case members s mid of
             None \<Rightarrow> (Inl MemberNotFound, s)
           | Some member \<Rightarrow>
               (case Book_issue_book book mid (name member) now of
                  (Inl e, book') \<Rightarrow> (Inl e, s\<lparr>books := (books s)(bid \<mapsto> book')\<rparr>)
                | (Inr r, book') \<Rightarrow>
                    (Inr r,
                     s\<lparr>books := (books s)(bid \<mapsto> book'),
                       members := (members s)(mid \<mapsto> Member_borrow_book member bid)\<rparr>))))"

definition Library_return_book ::
  "Library \<Rightarrow> int \<Rightarrow> int \<Rightarrow> datetime \<Rightarrow> (error + return_info) \<times> Library" where
  "Library_return_book s bid mid now =
     (case books s bid of
        None \<Rightarrow> (Inl BookNotFound, s)
      | Some book \<Rightarrow>
          (case members s mid of
             None \<Rightarrow> (Inl MemberNotFound, s)
           | Some member \<Rightarrow>
               (case Book_return_book book mid now of
                  (Inl e, book') \<Rightarrow> (Inl e, s\<lparr>books := (books s)(bid \<mapsto> book')\<rparr>)
                | (Inr info, book') \<Rightarrow>
                    let member1 = snd (Member_return_book member bid);
                        member2 = (if is_overdue info
                                   then Member_add_fine member1 (fine info) else member1)
                    in (Inr info,
                        s\<lparr>books := (books s)(bid \<mapsto> book'),
                          members := (members s)(mid \<mapsto> member2)\<rparr>))))"

inductive reachable :: "Library \<Rightarrow> bool" where
  init: "reachable (Library_init nm book_counter member_counter)"
| add_book: "reachable s \<Longrightarrow> reachable (snd (Library_add_book s ttl auth isb copies))"
| register_member: "reachable s \<Longrightarrow> reachable (snd (Library_register_member s nm em))"
| issue_book: "reachable s \<Longrightarrow> reachable (snd (Library_issue_book s bid mid now))"
| return_book: "reachable s \<Longrightarrow> reachable (snd (Library_return_book s bid mid now))"

definition has_loan :: "Library \<Rightarrow> int \<Rightarrow> int \<Rightarrow> bool" where
  "has_loan s bid mid \<longleftrightarrow> (\<exists>b. books s bid = Some b \<and> issued_to b mid \<noteq> None)"

definition lib_inv :: "Library \<Rightarrow> bool" where
  "lib_inv s \<longleftrightarrow>
     (\<forall>bid b. books s bid = Some b \<longrightarrow> bid < book_id_counter s)
     \<and> (\<forall>mid m. members s mid = Some m \<longrightarrow> mid < member_id_counter s)
     \<and> (\<forall>i bid. isbn_index s i = Some bid \<longrightarrow> books s bid \<noteq> None)
     \<and> (\<forall>bid mid. has_loan s bid mid \<longrightarrow> members s mid \<noteq> None)
     \<and> (\<forall>mid m bid. members s mid = Some m \<longrightarrow>
           count_list (borrowed_books m) bid = (if has_loan s bid mid then 1 else 0))"

subsection \<open>An example ledger\<close>

text \<open>
  A library with one title in two copies and one member, and the state after the title
  is issued to the member at time 0.
\<close>

definition example_library0 :: Library where
  "example_library0 = Library_init ''Central City Library'' 1 100"

definition example_library1 :: Library where
  "example_library1 =
     snd (Library_add_book example_library0 '' dune'' ''frank herbert'' '' 9780441013593 '' 2)"

definition example_library2 :: Library where
  "example_library2 = snd (Library_register_member example_library1 ''ann lee'' '' Ann@Example.org'')"

definition example_library3 :: Library where
  "example_library3 = snd (Library_issue_book example_library2 1 100 0)"

definition example_library4 :: Library where
  "example_library4 = snd (Library_return_book example_library3 1 100 (timedelta_of_days 20))"


definition example_record :: issue_record where
  "example_record = \<lparr>rec_member_id = 100, rec_member_name = ''Ann Lee'', issue_date = 0,
                      due_date = timedelta_of_days 14\<rparr>"

definition example_member :: Member where
  "example_member = \<lparr>member_id = 100, name = ''Ann Lee'', email = ''ann@example.org'',
                      borrowed_books = [], total_fines = 0\<rparr>"

section \<open>Properties of a catalog entry\<close>

lemma days_floor: "days d = \<lfloor>rat_of_int d / rat_of_int day\<rfloor>"
  by (simp add: days_def floor_divide_of_int_eq)

text \<open>
  C3. A book entry with no available copy refuses every issue request with
  \<open>NoCopiesAvailable\<close>, whoever the member is, and stays as it was.
\<close>

theorem issue_no_copies:
  assumes "available_copies b = 0"
  shows "Book_issue_book b mid mname now = (Inl NoCopiesAvailable, b)"
  using assms by (simp add: Book_issue_book_def is_available_def)

theorem issue_no_copies_witness:
  "available_copies (snd (Book_issue_book one_copy_book 100 ''Ann'' 0)) = 0
   \<and> Book_issue_book (snd (Book_issue_book one_copy_book 100 ''Ann'' 0)) 101 ''Bob'' 5
       = (Inl NoCopiesAvailable, snd (Book_issue_book one_copy_book 100 ''Ann'' 0))"
proof -
  have h: "available_copies (snd (Book_issue_book one_copy_book 100 ''Ann'' 0)) = 0"
    by (simp add: one_copy_book_def Book_init_def Book_issue_book_def is_available_def Let_def)
  show ?thesis using h issue_no_copies [OF h, of 101 "''Bob''" 5] by simp
qed

text \<open>
  C7. Returning a copy for a member who holds no loan record on the entry fails with
  \<open>NotBorrowedByMember\<close>, and the entry returned is the entry given: total copies,
  available copies and the loan records are untouched.
\<close>

theorem return_not_borrowed:
  assumes "issued_to b mid = None"
  shows "Book_return_book b mid now = (Inl NotBorrowedByMember, b)"
  using assms by (simp add: Book_return_book_def)

theorem return_not_borrowed_witness:
  "issued_to (snd (Book_issue_book two_copy_book 100 ''Ann'' 0)) 101 = None
   \<and> Book_return_book (snd (Book_issue_book two_copy_book 100 ''Ann'' 0)) 101 7
       = (Inl NotBorrowedByMember, snd (Book_issue_book two_copy_book 100 ''Ann'' 0))"
proof -
  have h: "issued_to (snd (Book_issue_book two_copy_book 100 ''Ann'' 0)) 101 = None"
    by (simp add: two_copy_book_def Book_init_def Book_issue_book_def is_available_def Let_def)
  show ?thesis using h return_not_borrowed [OF h, of 7] by simp
qed

text \<open>
  C4. Returning a copy held under the loan record \<open>r\<close> succeeds. The return is overdue
  exactly when \<open>now\<close> is strictly after the due date, so a return at the due date itself
  is not overdue. The overdue days are the floor of the time past the due date measured
  in days when the return is overdue and zero otherwise, and the fine is the overdue days
  times the daily rate of one.
\<close>

theorem return_overdue_and_fine:
  assumes "issued_to b mid = Some r"
  shows "\<exists>info b'. Book_return_book b mid now = (Inr info, b')
           \<and> is_overdue info = (now > due_date r)
           \<and> (now = due_date r \<longrightarrow> \<not> is_overdue info)
           \<and> overdue_days info =
               (if now > due_date r
                then \<lfloor>rat_of_int (now - due_date r) / rat_of_int day\<rfloor> else 0)
           \<and> fine info = rat_of_int (overdue_days info) * daily_fine_rate
           \<and> daily_fine_rate = 1"
proof -
  let ?od = "if now > due_date r then days (now - due_date r) else 0"
  let ?info = "\<lparr>days_borrowed = days (now - issue_date r), is_overdue = (now > due_date r),
                overdue_days = ?od,
                fine = (if now > due_date r then of_int ?od * daily_fine_rate else 0)\<rparr>"
  let ?b' = "b\<lparr>issued_to := (issued_to b)(mid := None),
               available_copies := available_copies b + 1\<rparr>"
  have run: "Book_return_book b mid now = (Inr ?info, ?b')"
    using assms by (simp add: Book_return_book_def Let_def)
  have od: "overdue_days ?info =
      (if now > due_date r then \<lfloor>rat_of_int (now - due_date r) / rat_of_int day\<rfloor> else 0)"
    using days_floor [of "now - due_date r"] by simp
  have fn: "fine ?info = rat_of_int (overdue_days ?info) * daily_fine_rate"
    by simp
  have "is_overdue ?info = (now > due_date r)" by simp
  moreover have "now = due_date r \<longrightarrow> \<not> is_overdue ?info" by simp
  moreover have "daily_fine_rate = 1" by (simp add: daily_fine_rate_def)
  ultimately show ?thesis using run od fn by blast
qed

theorem return_overdue_and_fine_witness:
  "issued_to (snd (Book_issue_book two_copy_book 100 ''Ann'' 0)) 100
     = Some \<lparr>rec_member_id = 100, rec_member_name = ''Ann'', issue_date = 0,
             due_date = 14 * day\<rparr>
   \<and> (\<exists>info b'. Book_return_book (snd (Book_issue_book two_copy_book 100 ''Ann'' 0)) 100
                   (14 * day + 1) = (Inr info, b')
          \<and> is_overdue info \<and> overdue_days info = 0 \<and> fine info = 0)"
proof -
  have h: "issued_to (snd (Book_issue_book two_copy_book 100 ''Ann'' 0)) 100
     = Some \<lparr>rec_member_id = 100, rec_member_name = ''Ann'', issue_date = 0,
             due_date = 14 * day\<rparr>"
    by (simp add: two_copy_book_def Book_init_def Book_issue_book_def is_available_def
        Let_def timedelta_of_days_def loan_period_days_def)
  have "\<lfloor>rat_of_int (14 * day + 1 - 14 * day) / rat_of_int day\<rfloor>
          = (14 * day + 1 - 14 * day) div day"
    by (rule floor_divide_of_int_eq)
  also have "\<dots> = 0"
    by (simp add: day_def)
  finally have d: "\<lfloor>rat_of_int (14 * day + 1 - 14 * day) / rat_of_int day\<rfloor> = 0" .
  show ?thesis
    using h d return_overdue_and_fine [OF h, of "14 * day + 1"]
    by auto
qed

lemma Book_init_inv: "0 \<le> copies \<Longrightarrow> entry_inv (fst (Book_init c t a i copies))"
  by (simp add: entry_inv_def Book_init_def active_loans_def)

lemma issue_preserves_inv:
  assumes "entry_inv b"
  shows "entry_inv (snd (Book_issue_book b mid mname now))"
proof (cases "is_available b \<and> issued_to b mid = None")
  case False
  then show ?thesis using assms by (auto simp add: Book_issue_book_def)
next
  case True
  then have fresh: "mid \<notin> dom (issued_to b)" and pos: "0 < available_copies b"
    by (auto simp add: is_available_def)
  have fin: "finite (dom (issued_to b))" using assms by (simp add: entry_inv_def)
  have "card (insert mid (dom (issued_to b))) = Suc (card (dom (issued_to b)))"
    using fin fresh by simp
  then show ?thesis
    using assms True pos fin
    by (simp add: Book_issue_book_def Let_def entry_inv_def active_loans_def)
qed

lemma return_preserves_inv:
  assumes "entry_inv b"
  shows "entry_inv (snd (Book_return_book b mid now))"
proof (cases "issued_to b mid")
  case None
  then show ?thesis using assms by (simp add: Book_return_book_def)
next
  case (Some r)
  then have mem: "mid \<in> dom (issued_to b)" by auto
  have fin: "finite (dom (issued_to b))" using assms by (simp add: entry_inv_def)
  have "card (dom (issued_to b) - {mid}) = card (dom (issued_to b)) - 1"
    using fin mem by simp
  moreover have "0 < card (dom (issued_to b))"
    using fin mem by (auto simp add: card_gt_0_iff)
  ultimately show ?thesis
    using assms Some fin
    by (simp add: Book_return_book_def Let_def entry_inv_def active_loans_def)
qed

lemma apply_call_inv: "entry_inv b \<Longrightarrow> entry_inv (apply_call b c)"
  by (cases c) (simp_all add: issue_preserves_inv return_preserves_inv)

text \<open>
  C1. A fresh entry with a non-negative number of copies satisfies the copy-count
  invariant, and any sequence of issue and return calls, successful or failed, on an
  entry that satisfies it leaves an entry that satisfies it: the available copies are the
  total copies minus the number of loan records, are never negative and never exceed the
  total. Every prefix of a sequence is a sequence, so the invariant holds at every point.
\<close>

theorem entry_copy_conservation:
  "(0 \<le> copies \<longrightarrow> entry_inv (run_calls (fst (Book_init c t a i copies)) calls))
   \<and> (entry_inv b \<longrightarrow> entry_inv (run_calls b calls))"
proof -
  have step: "entry_inv b' \<Longrightarrow> entry_inv (run_calls b' calls)" for b'
    by (induction calls arbitrary: b') (simp_all add: apply_call_inv)
  show ?thesis using step Book_init_inv by blast
qed

theorem entry_copy_conservation_witness:
  "(0::int) \<le> 2 \<and> entry_inv two_copy_book
   \<and> entry_inv (run_calls (fst (Book_init 1 ''Emma'' ''Jane Austen'' ''9780141439587'' 2)) example_calls)
   \<and> entry_inv (run_calls two_copy_book example_calls)
   \<and> available_copies (run_calls two_copy_book example_calls) = 1
   \<and> dom (issued_to (run_calls two_copy_book example_calls)) = {101}"
proof -
  have h: "entry_inv two_copy_book"
    by (simp add: two_copy_book_def Book_init_def entry_inv_def active_loans_def)
  have e: "available_copies (run_calls two_copy_book example_calls) = 1
      \<and> dom (issued_to (run_calls two_copy_book example_calls)) = {101}"
    by (simp add: two_copy_book_def example_calls_def Book_init_def Book_issue_book_def
        Book_return_book_def is_available_def Let_def)
  show ?thesis
    using h e
      entry_copy_conservation [of 2 1 "''Emma''" "''Jane Austen''" "''9780141439587''"
        example_calls two_copy_book]
    by simp
qed

lemma issue_success_record:
  assumes "Book_issue_book b mid mname now = (Inr r, b1)"
  shows "issued_to b1 mid = Some r"
  using assms by (auto simp add: Book_issue_book_def Let_def split: if_splits)

lemma apply_call_keeps_loan:
  assumes "issued_to b mid \<noteq> None" and "\<not> is_return_by mid c"
  shows "issued_to (apply_call b c) mid \<noteq> None"
proof (cases c)
  case (Issue m mname now)
  then show ?thesis using assms
    by (auto simp add: Book_issue_book_def Let_def)
next
  case (Return m now)
  then show ?thesis using assms
    by (auto simp add: Book_return_book_def Let_def split: option.splits)
qed

lemma run_calls_keeps_loan:
  assumes "issued_to b mid \<noteq> None" and "\<forall>c \<in> set calls. \<not> is_return_by mid c"
  shows "issued_to (run_calls b calls) mid \<noteq> None"
  using assms
proof (induction calls arbitrary: b)
  case Nil
  then show ?case by simp
next
  case (Cons c cs)
  then show ?case using apply_call_keeps_loan [of b mid c] by simp
qed

text \<open>
  C2 (amended). After a successful issue to a member, and any calls on the entry among
  which is no return by that member, a second issue to the same member fails: with
  \<open>AlreadyBorrowed\<close> when a copy is still available at the second call, and with
  \<open>NoCopiesAvailable\<close> when none is, since the availability test comes first. The
  entry is left as it was.
\<close>

theorem second_issue_fails:
  assumes "Book_issue_book b mid mname now = (Inr r, b1)"
    and "\<forall>c \<in> set calls. \<not> is_return_by mid c"
  shows "Book_issue_book (run_calls b1 calls) mid mname' now'
           = (Inl (if 0 < available_copies (run_calls b1 calls)
                   then AlreadyBorrowed else NoCopiesAvailable),
              run_calls b1 calls)"
proof -
  have "issued_to b1 mid \<noteq> None"
    using issue_success_record [OF assms(1)] by simp
  then have "issued_to (run_calls b1 calls) mid \<noteq> None"
    using assms(2) by (rule run_calls_keeps_loan)
  then show ?thesis
    by (simp add: Book_issue_book_def is_available_def)
qed

theorem second_issue_fails_witness:
  "Book_issue_book two_copy_book 100 ''Ann'' 0
     = (Inr \<lparr>rec_member_id = 100, rec_member_name = ''Ann'', issue_date = 0,
             due_date = 14 * day\<rparr>,
        snd (Book_issue_book two_copy_book 100 ''Ann'' 0))
   \<and> filter (is_return_by 100) [Return 101 1, Issue 102 ''Cy'' 2, Return 102 3] = []
   \<and> fst (Book_issue_book
        (run_calls (snd (Book_issue_book two_copy_book 100 ''Ann'' 0))
           [Return 101 1, Issue 102 ''Cy'' 2, Return 102 3]) 100 ''Ann'' 4)
      = Inl AlreadyBorrowed"
proof -
  have h1: "Book_issue_book two_copy_book 100 ''Ann'' 0
     = (Inr \<lparr>rec_member_id = 100, rec_member_name = ''Ann'', issue_date = 0,
             due_date = 14 * day\<rparr>,
        snd (Book_issue_book two_copy_book 100 ''Ann'' 0))"
    by (simp add: two_copy_book_def Book_init_def Book_issue_book_def is_available_def
        Let_def timedelta_of_days_def loan_period_days_def)
  have h2: "\<forall>c \<in> set [Return 101 1, Issue 102 ''Cy'' 2, Return 102 3]. \<not> is_return_by 100 c"
    by simp
  have a: "0 < available_copies (run_calls (snd (Book_issue_book two_copy_book 100 ''Ann'' 0))
           [Return 101 1, Issue 102 ''Cy'' 2, Return 102 3])"
    by (simp add: two_copy_book_def Book_init_def Book_issue_book_def Book_return_book_def
        is_available_def Let_def)
  show ?thesis
    using h1 h2 a second_issue_fails [OF h1 h2, of "''Ann''" 4]
    by simp
qed

text \<open>
  C2 as stated fails on an entry with a single copy: the first issue takes the copy, and
  the second issue to the same member is refused with \<open>NoCopiesAvailable\<close>, not with
  \<open>AlreadyBorrowed\<close>.
\<close>

theorem second_issue_counterexample:
  "fst (Book_issue_book one_copy_book 100 ''Ann'' 0)
     = Inr \<lparr>rec_member_id = 100, rec_member_name = ''Ann'', issue_date = 0,
             due_date = 14 * day\<rparr>
   \<and> fst (Book_issue_book (snd (Book_issue_book one_copy_book 100 ''Ann'' 0)) 100 ''Ann'' 1)
       = Inl NoCopiesAvailable
   \<and> fst (Book_issue_book (snd (Book_issue_book one_copy_book 100 ''Ann'' 0)) 100 ''Ann'' 1)
       \<noteq> Inl AlreadyBorrowed"
  by (simp add: one_copy_book_def Book_init_def Book_issue_book_def is_available_def
      Let_def timedelta_of_days_def loan_period_days_def)

section \<open>Properties of the ledger\<close>

lemma lib_inv_init: "lib_inv (Library_init nm bc mc)"
  by (simp add: lib_inv_def Library_init_def has_loan_def)

lemma lib_invD:
  assumes "lib_inv s"
  shows "books s bid = Some b \<Longrightarrow> bid < book_id_counter s"
    and "members s mid = Some m \<Longrightarrow> mid < member_id_counter s"
    and "isbn_index s i = Some bid \<Longrightarrow> books s bid \<noteq> None"
    and "has_loan s bid mid \<Longrightarrow> members s mid \<noteq> None"
    and "members s mid = Some m \<Longrightarrow>
           count_list (borrowed_books m) bid = (if has_loan s bid mid then 1 else 0)"
  using assms unfolding lib_inv_def by blast+

lemma lib_invI:
  assumes "\<And>bid b. books s bid = Some b \<Longrightarrow> bid < book_id_counter s"
    and "\<And>mid m. members s mid = Some m \<Longrightarrow> mid < member_id_counter s"
    and "\<And>i bid. isbn_index s i = Some bid \<Longrightarrow> books s bid \<noteq> None"
    and "\<And>bid mid. has_loan s bid mid \<Longrightarrow> members s mid \<noteq> None"
    and "\<And>mid m bid. members s mid = Some m \<Longrightarrow>
           count_list (borrowed_books m) bid = (if has_loan s bid mid then 1 else 0)"
  shows "lib_inv s"
  unfolding lib_inv_def using assms by blast

lemma lib_inv_frame:
  assumes inv: "lib_inv s"
    and mem: "members s' = members s" "member_id_counter s' = member_id_counter s"
    and loans: "\<And>bid mid. has_loan s' bid mid = has_loan s bid mid"
    and ids: "\<And>bid b. books s' bid = Some b \<Longrightarrow> bid < book_id_counter s'"
    and idx: "\<And>i bid. isbn_index s' i = Some bid \<Longrightarrow> books s' bid \<noteq> None"
  shows "lib_inv s'"
proof (rule lib_invI)
  fix bid b assume "books s' bid = Some b"
  then show "bid < book_id_counter s'" by (rule ids)
next
  fix mid m assume "members s' mid = Some m"
  then show "mid < member_id_counter s'"
    using lib_invD(2) [OF inv, of mid m] mem by simp
next
  fix i bid assume "isbn_index s' i = Some bid"
  then show "books s' bid \<noteq> None" by (rule idx)
next
  fix bid mid assume "has_loan s' bid mid"
  then show "members s' mid \<noteq> None"
    using lib_invD(4) [OF inv, of bid mid] loans mem by simp
next
  fix mid m bid assume "members s' mid = Some m"
  then show "count_list (borrowed_books m) bid = (if has_loan s' bid mid then 1 else 0)"
    using lib_invD(5) [OF inv, of mid m bid] loans mem by simp
qed

lemma lib_inv_add_book:
  assumes inv: "lib_inv s"
  shows "lib_inv (snd (Library_add_book s ttl auth isb copies))"
proof (cases "copies \<le> 0")
  case True
  then show ?thesis using inv by (simp add: Library_add_book_def Let_def)
next
  case pos: False
  show ?thesis
  proof (cases "isbn_index s (str_strip isb)")
    case None
    let ?bid = "book_id_counter s"
    let ?b = "\<lparr>book_id = ?bid, title = str_title (str_strip ttl),
               author = str_title (str_strip auth), isbn = str_strip isb,
               total_copies = copies, available_copies = copies, issued_to = Map.empty\<rparr>"
    let ?s' = "s\<lparr>books := (books s)(?bid \<mapsto> ?b),
               isbn_index := (isbn_index s)(str_strip isb \<mapsto> ?bid),
               book_id_counter := ?bid + 1\<rparr>"
    have eq: "snd (Library_add_book s ttl auth isb copies) = ?s'"
      using pos None by (simp add: Library_add_book_def Let_def Book_init_def)
    have fresh: "books s ?bid = None"
      using lib_invD(1) [OF inv, of ?bid] by (cases "books s ?bid") auto
    have "lib_inv ?s'"
    proof (rule lib_inv_frame [OF inv])
      fix bid mid
      show "has_loan ?s' bid mid = has_loan s bid mid"
        using fresh by (auto simp add: has_loan_def)
    next
      fix bid b assume "books ?s' bid = Some b"
      then show "bid < book_id_counter ?s'"
        using lib_invD(1) [OF inv, of bid b] by (auto split: if_splits)
    next
      fix i bid assume "isbn_index ?s' i = Some bid"
      then show "books ?s' bid \<noteq> None"
        using lib_invD(3) [OF inv, of i bid] by (auto split: if_splits)
    qed simp_all
    then show ?thesis using eq by simp
  next
    case (Some existing_book_id)
    show ?thesis
    proof (cases "books s existing_book_id")
      case None
      then show ?thesis
        using inv pos Some by (simp add: Library_add_book_def Let_def)
    next
      case existing: (Some existing_book)
      let ?b = "existing_book\<lparr>total_copies := total_copies existing_book + copies,
                  available_copies := available_copies existing_book + copies\<rparr>"
      let ?s' = "s\<lparr>books := (books s)(existing_book_id \<mapsto> ?b)\<rparr>"
      have eq: "snd (Library_add_book s ttl auth isb copies) = ?s'"
        using pos Some existing by (simp add: Library_add_book_def Let_def)
      have "lib_inv ?s'"
      proof (rule lib_inv_frame [OF inv])
        fix bid mid
        show "has_loan ?s' bid mid = has_loan s bid mid"
          using existing by (auto simp add: has_loan_def)
      next
        fix bid b assume "books ?s' bid = Some b"
        then show "bid < book_id_counter ?s'"
          using lib_invD(1) [OF inv, of bid] existing by (auto split: if_splits)
      next
        fix i bid assume "isbn_index ?s' i = Some bid"
        then show "books ?s' bid \<noteq> None"
          using lib_invD(3) [OF inv, of i bid] by auto
      qed simp_all
      then show ?thesis using eq by simp
    qed
  qed
qed

lemma lib_inv_register_member:
  assumes "lib_inv s"
  shows "lib_inv (snd (Library_register_member s nm em))"
proof (cases "str_title (str_strip nm) = [] \<or> str_lower (str_strip em) = []")
  case True
  then show ?thesis using assms by (simp add: Library_register_member_def Let_def)
next
  case False
  let ?mid = "member_id_counter s"
  let ?m = "\<lparr>member_id = ?mid, name = str_title (str_strip nm),
             email = str_lower (str_strip em), borrowed_books = [], total_fines = 0\<rparr>"
  let ?s' = "s\<lparr>members := (members s)(?mid \<mapsto> ?m), member_id_counter := ?mid + 1\<rparr>"
  have eq: "snd (Library_register_member s nm em) = ?s'"
    using False by (simp add: Library_register_member_def Let_def Member_init_def)
  have fresh: "members s ?mid = None"
    using assms by (fastforce simp add: lib_inv_def)
  have loans: "has_loan ?s' bid mid = has_loan s bid mid" for bid mid
    by (simp add: has_loan_def)
  have noloan: "\<not> has_loan s bid ?mid" for bid
    using assms fresh unfolding lib_inv_def by blast
  have "lib_inv ?s'"
    unfolding lib_inv_def loans
    using assms noloan by (auto simp add: lib_inv_def)
  then show ?thesis using eq by simp
qed

lemma Library_issue_book_fail:
  assumes "fst (Library_issue_book s bid mid now) = Inl e"
  shows "snd (Library_issue_book s bid mid now) = s"
  using assms
  by (auto simp add: Library_issue_book_def Book_issue_book_def Let_def map_upd_triv
      split: option.splits if_splits)

lemma Library_return_book_fail:
  assumes "fst (Library_return_book s bid mid now) = Inl e"
  shows "snd (Library_return_book s bid mid now) = s"
  using assms
  by (auto simp add: Library_return_book_def Book_return_book_def Let_def map_upd_triv
      split: option.splits if_splits)

lemma Library_issue_book_ok:
  assumes "Library_issue_book s bid mid now = (Inr r, s')"
  shows "\<exists>b m. books s bid = Some b \<and> members s mid = Some m
           \<and> is_available b \<and> issued_to b mid = None
           \<and> r = \<lparr>rec_member_id = mid, rec_member_name = name m, issue_date = now,
                    due_date = now + timedelta_of_days loan_period_days\<rparr>
           \<and> s' = s\<lparr>books := (books s)(bid \<mapsto>
                         b\<lparr>issued_to := (issued_to b)(mid \<mapsto> r),
                           available_copies := available_copies b - 1\<rparr>),
                      members := (members s)(mid \<mapsto>
                         m\<lparr>borrowed_books := borrowed_books m @ [bid]\<rparr>)\<rparr>"
  using assms
  by (auto simp add: Library_issue_book_def Book_issue_book_def Let_def
      Member_borrow_book_def split: option.splits if_splits)

lemma borrowed_after_return:
  "borrowed_books (snd (Member_return_book m bid)) = remove1 bid (borrowed_books m)"
  by (simp add: Member_return_book_def remove1_idem)

lemma Library_return_book_ok:
  assumes "Library_return_book s bid mid now = (Inr info, s')"
  obtains b m r m' where
    "books s bid = Some b" and "members s mid = Some m" and "issued_to b mid = Some r"
    and "Book_return_book b mid now =
          (Inr info, b\<lparr>issued_to := (issued_to b)(mid := None),
                        available_copies := available_copies b + 1\<rparr>)"
    and "borrowed_books m' = remove1 bid (borrowed_books m)"
    and "s' = s\<lparr>books := (books s)(bid \<mapsto>
                     b\<lparr>issued_to := (issued_to b)(mid := None),
                       available_copies := available_copies b + 1\<rparr>),
                  members := (members s)(mid \<mapsto> m')\<rparr>"
proof -
  obtain b where b: "books s bid = Some b"
    using assms by (cases "books s bid") (simp_all add: Library_return_book_def)
  obtain m where m: "members s mid = Some m"
    using assms b by (cases "members s mid") (simp_all add: Library_return_book_def)
  obtain r where r: "issued_to b mid = Some r"
    using assms b m
    by (cases "issued_to b mid") (simp_all add: Library_return_book_def Book_return_book_def)
  let ?b' = "b\<lparr>issued_to := (issued_to b)(mid := None),
                available_copies := available_copies b + 1\<rparr>"
  obtain info0 where bk: "Book_return_book b mid now = (Inr info0, ?b')"
    using r by (simp add: Book_return_book_def Let_def)
  let ?m1 = "snd (Member_return_book m bid)"
  let ?m2 = "if is_overdue info0 then Member_add_fine ?m1 (fine info0) else ?m1"
  have run: "Library_return_book s bid mid now =
      (Inr info0, s\<lparr>books := (books s)(bid \<mapsto> ?b'), members := (members s)(mid \<mapsto> ?m2)\<rparr>)"
    using b m bk by (simp add: Library_return_book_def Let_def)
  have bb: "borrowed_books ?m2 = remove1 bid (borrowed_books m)"
    by (simp add: borrowed_after_return Member_add_fine_def)
  from run assms have "info = info0"
    and "s' = s\<lparr>books := (books s)(bid \<mapsto> ?b'), members := (members s)(mid \<mapsto> ?m2)\<rparr>"
    by simp_all
  then show thesis using that [OF b m r _ bb] bk by simp
qed

lemma count_list_remove1:
  "count_list (remove1 x xs) y =
     (if x = y \<and> x \<in> set xs then count_list xs y - 1 else count_list xs y)"
  by (induction xs) auto

lemma lib_inv_issue_book:
  assumes inv: "lib_inv s"
  shows "lib_inv (snd (Library_issue_book s bid mid now))"
proof (cases "fst (Library_issue_book s bid mid now)")
  case (Inl e)
  then have "snd (Library_issue_book s bid mid now) = s"
    by (rule Library_issue_book_fail)
  then show ?thesis using inv by simp
next
  case (Inr r)
  let ?s' = "snd (Library_issue_book s bid mid now)"
  from Inr have "Library_issue_book s bid mid now = (Inr r, ?s')"
    by (simp add: prod_eq_iff)
  from Library_issue_book_ok [OF this]
  obtain b m where b: "books s bid = Some b" and m: "members s mid = Some m"
    and free: "issued_to b mid = None"
    and s': "?s' =
        s\<lparr>books := (books s)(bid \<mapsto>
               b\<lparr>issued_to := (issued_to b)(mid \<mapsto> r),
                 available_copies := available_copies b - 1\<rparr>),
          members := (members s)(mid \<mapsto> m\<lparr>borrowed_books := borrowed_books m @ [bid]\<rparr>)\<rparr>"
    by blast
  have loans: "has_loan ?s' bid' mid' \<longleftrightarrow> has_loan s bid' mid' \<or> (bid' = bid \<and> mid' = mid)"
    for bid' mid'
    unfolding s' using b by (auto simp add: has_loan_def)
  have before: "\<not> has_loan s bid mid"
    using b free by (simp add: has_loan_def)
  show ?thesis
  proof (rule lib_invI)
    fix bid' b' assume "books ?s' bid' = Some b'"
    then have "books s bid' \<noteq> None"
      unfolding s' using b by (auto split: if_splits)
    then show "bid' < book_id_counter ?s'"
      unfolding s' using lib_invD(1) [OF inv] by auto
  next
    fix mid' m' assume "members ?s' mid' = Some m'"
    then have "members s mid' \<noteq> None"
      unfolding s' using m by (auto split: if_splits)
    then show "mid' < member_id_counter ?s'"
      unfolding s' using lib_invD(2) [OF inv] by auto
  next
    fix i bid' assume "isbn_index ?s' i = Some bid'"
    then have "books s bid' \<noteq> None"
      unfolding s' using lib_invD(3) [OF inv] by simp
    then show "books ?s' bid' \<noteq> None"
      unfolding s' by simp
  next
    fix bid' mid' assume "has_loan ?s' bid' mid'"
    then have "members s mid' \<noteq> None"
      unfolding loans using lib_invD(4) [OF inv] m by auto
    then show "members ?s' mid' \<noteq> None"
      unfolding s' by simp
  next
    fix mid' m' bid' assume mem: "members ?s' mid' = Some m'"
    show "count_list (borrowed_books m') bid' = (if has_loan ?s' bid' mid' then 1 else 0)"
    proof (cases "mid' = mid")
      case True
      then have m': "m' = m\<lparr>borrowed_books := borrowed_books m @ [bid]\<rparr>"
        using mem unfolding s' by simp
      have old: "count_list (borrowed_books m) bid' = (if has_loan s bid' mid then 1 else 0)"
        using lib_invD(5) [OF inv m] .
      show ?thesis
        unfolding loans using True m' old before by auto
    next
      case False
      then have "members s mid' = Some m'"
        using mem unfolding s' by simp
      then have "count_list (borrowed_books m') bid' = (if has_loan s bid' mid' then 1 else 0)"
        by (rule lib_invD(5) [OF inv])
      then show ?thesis
        unfolding loans using False by simp
    qed
  qed
qed

lemma lib_inv_return_book:
  assumes inv: "lib_inv s"
  shows "lib_inv (snd (Library_return_book s bid mid now))"
proof (cases "fst (Library_return_book s bid mid now)")
  case (Inl e)
  then have "snd (Library_return_book s bid mid now) = s"
    by (rule Library_return_book_fail)
  then show ?thesis using inv by simp
next
  case (Inr info)
  let ?s' = "snd (Library_return_book s bid mid now)"
  from Inr have run: "Library_return_book s bid mid now = (Inr info, ?s')"
    by (simp add: prod_eq_iff)
  from run show ?thesis
  proof (rule Library_return_book_ok)
    fix b m r m1
    assume b: "books s bid = Some b" and m: "members s mid = Some m"
      and r: "issued_to b mid = Some r"
      and bb: "borrowed_books m1 = remove1 bid (borrowed_books m)"
      and s': "?s' = s\<lparr>books := (books s)(bid \<mapsto>
                     b\<lparr>issued_to := (issued_to b)(mid := None),
                       available_copies := available_copies b + 1\<rparr>),
                  members := (members s)(mid \<mapsto> m1)\<rparr>"
    have loans: "has_loan ?s' bid' mid' \<longleftrightarrow> has_loan s bid' mid' \<and> \<not> (bid' = bid \<and> mid' = mid)"
      for bid' mid'
      unfolding s' using b by (auto simp add: has_loan_def)
    have before: "has_loan s bid mid"
      using b r by (simp add: has_loan_def)
    have once: "count_list (borrowed_books m) bid = 1"
      using lib_invD(5) [OF inv m, of bid] before by simp
    have held: "bid \<in> set (borrowed_books m)"
    proof (rule ccontr)
      assume "bid \<notin> set (borrowed_books m)"
      then have "count_list (borrowed_books m) bid = 0" by simp
      with once show False by simp
    qed
    show ?thesis
    proof (rule lib_invI)
      fix bid' b' assume "books ?s' bid' = Some b'"
      then have "books s bid' \<noteq> None"
        unfolding s' using b by (auto split: if_splits)
      then show "bid' < book_id_counter ?s'"
        unfolding s' using lib_invD(1) [OF inv] by auto
    next
      fix mid' m' assume "members ?s' mid' = Some m'"
      then have "members s mid' \<noteq> None"
        unfolding s' using m by (auto split: if_splits)
      then show "mid' < member_id_counter ?s'"
        unfolding s' using lib_invD(2) [OF inv] by auto
    next
      fix i bid' assume "isbn_index ?s' i = Some bid'"
      then have "books s bid' \<noteq> None"
        unfolding s' using lib_invD(3) [OF inv] by simp
      then show "books ?s' bid' \<noteq> None"
        unfolding s' by simp
    next
      fix bid' mid' assume "has_loan ?s' bid' mid'"
      then have "members s mid' \<noteq> None"
        unfolding loans using lib_invD(4) [OF inv] by auto
      then show "members ?s' mid' \<noteq> None"
        unfolding s' by simp
    next
      fix mid' m' bid' assume mem: "members ?s' mid' = Some m'"
      show "count_list (borrowed_books m') bid' = (if has_loan ?s' bid' mid' then 1 else 0)"
      proof (cases "mid' = mid")
        case True
        then have m': "m' = m1"
          using mem unfolding s' by simp
        have old: "count_list (borrowed_books m) bid' = (if has_loan s bid' mid then 1 else 0)"
          using lib_invD(5) [OF inv m] .
        have "count_list (borrowed_books m1) bid' =
            (if bid = bid' then count_list (borrowed_books m) bid' - 1
             else count_list (borrowed_books m) bid')"
          unfolding bb using held by (simp add: count_list_remove1)
        then show ?thesis
          unfolding loans m' using True old before by auto
      next
        case False
        then have "members s mid' = Some m'"
          using mem unfolding s' by simp
        then have "count_list (borrowed_books m') bid' = (if has_loan s bid' mid' then 1 else 0)"
          by (rule lib_invD(5) [OF inv])
        then show ?thesis
          unfolding loans using False by simp
      qed
    qed
  qed
qed

lemma reachable_lib_inv: "reachable s \<Longrightarrow> lib_inv s"
proof (induction rule: reachable.induct)
  case (init nm book_counter member_counter)
  show ?case by (rule lib_inv_init)
next
  case (add_book s ttl auth isb copies)
  then show ?case by (simp add: lib_inv_add_book)
next
  case (register_member s nm em)
  then show ?case by (simp add: lib_inv_register_member)
next
  case (issue_book s bid mid now)
  then show ?case by (simp add: lib_inv_issue_book)
next
  case (return_book s bid mid now)
  then show ?case by (simp add: lib_inv_return_book)
qed

lemma Library_return_book_held:
  assumes "books s bid = Some b" and "members s mid = Some m" and "issued_to b mid = Some r"
  shows "\<exists>s'. Library_return_book s bid mid now =
           (Inr \<lparr>days_borrowed = days (now - issue_date r),
                  is_overdue = (now > due_date r),
                  overdue_days = (if now > due_date r then days (now - due_date r) else 0),
                  fine = (if now > due_date r
                          then of_int (days (now - due_date r)) * daily_fine_rate else 0)\<rparr>,
            s')"
  using assms by (simp add: Library_return_book_def Book_return_book_def Let_def)

lemma days_of_whole_days: "days (timedelta_of_days n) = n"
  by (simp add: days_def timedelta_of_days_def day_def)

subsection \<open>The example ledger\<close>

lemmas str_defs = str_title_def str_strip_def str_lower_def is_space_def to_lower_def
  to_upper_def is_lower_def is_upper_def

lemma example_library1_eq:
  "example_library1 =
     \<lparr>library_name = ''Central City Library'',
      books = [1 \<mapsto> \<lparr>book_id = 1, title = ''Dune'', author = ''Frank Herbert'',
                       isbn = ''9780441013593'', total_copies = 2, available_copies = 2,
                       issued_to = Map.empty\<rparr>],
      members = Map.empty,
      isbn_index = [''9780441013593'' \<mapsto> 1],
      book_id_counter = 2, member_id_counter = 100\<rparr>"
  by (simp add: example_library1_def example_library0_def Library_init_def
      Library_add_book_def Book_init_def Let_def str_defs)

lemma example_library2_eq:
  "example_library2 =
     example_library1\<lparr>members := [100 \<mapsto> \<lparr>member_id = 100, name = ''Ann Lee'',
                          email = ''ann@example.org'', borrowed_books = [],
                          total_fines = 0\<rparr>],
        member_id_counter := 101\<rparr>"
  by (simp add: example_library2_def example_library1_eq
      Library_register_member_def Member_init_def Let_def str_defs)

lemma example_issue:
  "Library_issue_book example_library2 1 100 0 = (Inr example_record, example_library3)"
  by (simp add: example_library3_def example_record_def example_library2_eq
      example_library1_eq Library_issue_book_def Book_issue_book_def is_available_def
      Let_def loan_period_days_def)

lemma example_library1_reachable: "reachable example_library1"
proof -
  have "reachable example_library0"
    unfolding example_library0_def by (rule reachable.init)
  then show ?thesis
    unfolding example_library1_def by (rule reachable.add_book)
qed

lemma example_library0_reachable: "reachable example_library0"
  unfolding example_library0_def by (rule reachable.init)

lemma example_library2_reachable: "reachable example_library2"
proof -
  have "reachable example_library0"
    unfolding example_library0_def by (rule reachable.init)
  then have "reachable example_library1"
    unfolding example_library1_def by (rule reachable.add_book)
  then show ?thesis
    unfolding example_library2_def by (rule reachable.register_member)
qed

lemma example_library2_member: "members example_library2 100 = Some example_member"
  by (simp add: example_library2_eq example_member_def)

text \<open>
  C5. After a successful \<open>Library.issue_book\<close> of book \<open>bid\<close> to member \<open>mid\<close> at
  time \<open>t0\<close>, returning it 14 days later succeeds, is not overdue and carries no fine;
  returning it 20 days later instead succeeds, is overdue by 6 days and carries a fine of
  6 times the daily rate.
\<close>

theorem issue_return_round_trip:
  assumes "Library_issue_book s bid mid t0 = (Inr r, s1)"
  shows "(\<exists>info s2. Library_return_book s1 bid mid (t0 + timedelta_of_days 14) = (Inr info, s2)
            \<and> \<not> is_overdue info \<and> fine info = 0)
       \<and> (\<exists>info s2. Library_return_book s1 bid mid (t0 + timedelta_of_days 20) = (Inr info, s2)
            \<and> is_overdue info \<and> overdue_days info = 6
            \<and> fine info = 6 * daily_fine_rate)"
proof -
  from Library_issue_book_ok [OF assms]
  obtain b m where r: "r = \<lparr>rec_member_id = mid, rec_member_name = name m, issue_date = t0,
                    due_date = t0 + timedelta_of_days loan_period_days\<rparr>"
    and s1: "s1 = s\<lparr>books := (books s)(bid \<mapsto>
                         b\<lparr>issued_to := (issued_to b)(mid \<mapsto> r),
                           available_copies := available_copies b - 1\<rparr>),
                      members := (members s)(mid \<mapsto>
                         m\<lparr>borrowed_books := borrowed_books m @ [bid]\<rparr>)\<rparr>"
    by blast
  let ?b1 = "b\<lparr>issued_to := (issued_to b)(mid \<mapsto> r),
               available_copies := available_copies b - 1\<rparr>"
  let ?m1 = "m\<lparr>borrowed_books := borrowed_books m @ [bid]\<rparr>"
  have b1: "books s1 bid = Some ?b1" and m1: "members s1 mid = Some ?m1"
    and held: "issued_to ?b1 mid = Some r"
    by (simp_all add: s1)
  have due: "due_date r = t0 + timedelta_of_days 14"
    by (simp add: r loan_period_days_def)
  have on_time: "\<not> t0 + timedelta_of_days 14 > due_date r"
    by (simp add: due)
  have late: "t0 + timedelta_of_days 20 > due_date r"
    by (simp add: due timedelta_of_days_def day_def)
  have "t0 + timedelta_of_days 20 - due_date r = timedelta_of_days 6"
    by (simp add: due timedelta_of_days_def)
  then have six: "days (t0 + timedelta_of_days 20 - due_date r) = 6"
    by (simp add: days_of_whole_days)
  show ?thesis
    using Library_return_book_held [OF b1 m1 held, of "t0 + timedelta_of_days 14"]
      Library_return_book_held [OF b1 m1 held, of "t0 + timedelta_of_days 20"]
      on_time late six
    by auto
qed

theorem issue_return_round_trip_witness:
  "Library_issue_book example_library2 1 100 0 = (Inr example_record, example_library3)
   \<and> (\<exists>info s2. Library_return_book example_library3 1 100 (0 + timedelta_of_days 14)
                   = (Inr info, s2)
          \<and> \<not> is_overdue info \<and> fine info = 0)
   \<and> (\<exists>info s2. Library_return_book example_library3 1 100 (0 + timedelta_of_days 20)
                   = (Inr info, s2)
          \<and> is_overdue info \<and> overdue_days info = 6 \<and> fine info = 6 * daily_fine_rate)"
  using example_issue issue_return_round_trip [OF example_issue]
  by simp

lemma borrowed_member_iff:
  assumes "lib_inv s" and "members s mid = Some m"
  shows "bid \<in> set (borrowed_books m) \<longleftrightarrow> has_loan s bid mid"
proof -
  have c: "count_list (borrowed_books m) bid = (if has_loan s bid mid then 1 else 0)"
    using lib_invD(5) [OF assms] .
  show ?thesis
  proof (cases "has_loan s bid mid")
    case True
    with c have "count_list (borrowed_books m) bid \<noteq> 0" by simp
    then show ?thesis using True by (simp add: count_list_0_iff)
  next
    case False
    with c have "count_list (borrowed_books m) bid = 0" by simp
    then show ?thesis using False by (simp add: count_list_0_iff)
  qed
qed

lemma Library_issue_book_free:
  assumes "books s bid = Some b" and "members s mid = Some m"
    and "is_available b" and "issued_to b mid = None"
  shows "\<exists>r s1. Library_issue_book s bid mid now = (Inr r, s1)"
  using assms by (simp add: Library_issue_book_def Book_issue_book_def Let_def)

lemma issue_book_records:
  assumes reach: "reachable s" and run: "Library_issue_book s bid mid now = (Inr r, s1)"
  shows "\<exists>b1 m1. books s1 bid = Some b1 \<and> issued_to b1 mid = Some r
           \<and> members s1 mid = Some m1 \<and> count_list (borrowed_books m1) bid = 1"
proof -
  from run have "s1 = snd (Library_issue_book s bid mid now)" by simp
  then have "reachable s1" using reach by (simp add: reachable.issue_book)
  then have inv1: "lib_inv s1" by (rule reachable_lib_inv)
  from Library_issue_book_ok [OF run]
  obtain b m0 where s1: "s1 = s\<lparr>books := (books s)(bid \<mapsto>
                         b\<lparr>issued_to := (issued_to b)(mid \<mapsto> r),
                           available_copies := available_copies b - 1\<rparr>),
                      members := (members s)(mid \<mapsto>
                         m0\<lparr>borrowed_books := borrowed_books m0 @ [bid]\<rparr>)\<rparr>"
    by blast
  let ?b1 = "b\<lparr>issued_to := (issued_to b)(mid \<mapsto> r),
               available_copies := available_copies b - 1\<rparr>"
  let ?m1 = "m0\<lparr>borrowed_books := borrowed_books m0 @ [bid]\<rparr>"
  have b1: "books s1 bid = Some ?b1" and m1: "members s1 mid = Some ?m1"
    and rec: "issued_to ?b1 mid = Some r"
    by (simp_all add: s1)
  have "has_loan s1 bid mid"
    using b1 rec by (simp add: has_loan_def)
  then have "count_list (borrowed_books ?m1) bid = 1"
    using lib_invD(5) [OF inv1 m1, of bid] by simp
  then show ?thesis using b1 m1 rec by blast
qed

lemma return_book_clears:
  assumes reach: "reachable s" and run: "Library_return_book s bid mid now = (Inr info, s1)"
  shows "\<exists>b1 m1. books s1 bid = Some b1 \<and> issued_to b1 mid = None
           \<and> members s1 mid = Some m1 \<and> count_list (borrowed_books m1) bid = 0"
proof -
  from run have "s1 = snd (Library_return_book s bid mid now)" by simp
  then have "reachable s1" using reach by (simp add: reachable.return_book)
  then have inv1: "lib_inv s1" by (rule reachable_lib_inv)
  from run show ?thesis
  proof (rule Library_return_book_ok)
    fix b m0 r m1
    assume s1: "s1 = s\<lparr>books := (books s)(bid \<mapsto>
                     b\<lparr>issued_to := (issued_to b)(mid := None),
                       available_copies := available_copies b + 1\<rparr>),
                  members := (members s)(mid \<mapsto> m1)\<rparr>"
    let ?b1 = "b\<lparr>issued_to := (issued_to b)(mid := None),
                 available_copies := available_copies b + 1\<rparr>"
    have b1: "books s1 bid = Some ?b1" and m1: "members s1 mid = Some m1"
      and gone: "issued_to ?b1 mid = None"
      by (simp_all add: s1)
    have "\<not> has_loan s1 bid mid"
      using b1 gone by (simp add: has_loan_def)
    then have "count_list (borrowed_books m1) bid = 0"
      using lib_invD(5) [OF inv1 m1, of bid] by simp
    then show ?thesis using b1 m1 gone by blast
  qed
qed

lemma return_book_of_loan:
  assumes reach: "reachable s" and mem: "members s mid = Some m"
    and b: "books s bid = Some b" and held: "issued_to b mid \<noteq> None"
  shows "\<exists>info s1 b1 m1. Library_return_book s bid mid now = (Inr info, s1)
           \<and> books s1 bid = Some b1 \<and> issued_to b1 mid = None
           \<and> members s1 mid = Some m1 \<and> count_list (borrowed_books m1) bid = 0"
proof -
  from held obtain r where r: "issued_to b mid = Some r" by blast
  from Library_return_book_held [OF b mem r, of now]
  obtain info s1 where run: "Library_return_book s bid mid now = (Inr info, s1)"
    by blast
  from return_book_clears [OF reach run] run show ?thesis by blast
qed


text \<open>
  C8. In every ledger state reachable from an empty library by \<open>add_book\<close>,
  \<open>register_member\<close>, \<open>issue_book\<close> and \<open>return_book\<close>, a book identifier is in a
  member's borrowed list if and only if that book holds a loan record for the member's
  identifier. After a successful \<open>issue_book\<close> the book holds the record and the
  member's borrowed list contains the book identifier exactly once; after a successful
  \<open>return_book\<close> the record is gone and the list contains the identifier zero times.
  The matching \<open>return_book\<close> does succeed: after a successful \<open>issue_book\<close>, and in
  any reachable state where the book holds a record for the member, \<open>return_book\<close> for
  that pair succeeds at any time, removes the record and leaves the identifier zero
  times in the list. \<open>issue_book\<close> succeeds whenever the book has an available copy and
  holds no record for the member.
\<close>

theorem borrowed_iff_loan:
  assumes "reachable s" and "members s mid = Some m"
  shows "(bid \<in> set (borrowed_books m)
            \<longleftrightarrow> (\<exists>b. books s bid = Some b \<and> issued_to b mid \<noteq> None))
       \<and> (\<forall>r s1. Library_issue_book s bid mid now = (Inr r, s1) \<longrightarrow>
             (\<exists>b1 m1. books s1 bid = Some b1 \<and> issued_to b1 mid = Some r
                \<and> members s1 mid = Some m1 \<and> count_list (borrowed_books m1) bid = 1))
       \<and> (\<forall>info s1. Library_return_book s bid mid now = (Inr info, s1) \<longrightarrow>
             (\<exists>b1 m1. books s1 bid = Some b1 \<and> issued_to b1 mid = None
                \<and> members s1 mid = Some m1 \<and> count_list (borrowed_books m1) bid = 0))
       \<and> (\<forall>r s1. Library_issue_book s bid mid now = (Inr r, s1) \<longrightarrow>
             (\<exists>info s2 b2 m2. Library_return_book s1 bid mid now' = (Inr info, s2)
                \<and> books s2 bid = Some b2 \<and> issued_to b2 mid = None
                \<and> members s2 mid = Some m2 \<and> count_list (borrowed_books m2) bid = 0))
       \<and> ((\<exists>b. books s bid = Some b \<and> issued_to b mid \<noteq> None) \<longrightarrow>
             (\<exists>info s1 b1 m1. Library_return_book s bid mid now = (Inr info, s1)
                \<and> books s1 bid = Some b1 \<and> issued_to b1 mid = None
                \<and> members s1 mid = Some m1 \<and> count_list (borrowed_books m1) bid = 0))
       \<and> ((\<exists>b. books s bid = Some b \<and> is_available b \<and> issued_to b mid = None) \<longrightarrow>
             (\<exists>r s1. Library_issue_book s bid mid now = (Inr r, s1)))"
proof (intro conjI allI impI)
  have "lib_inv s" using assms(1) by (rule reachable_lib_inv)
  then show "bid \<in> set (borrowed_books m)
      \<longleftrightarrow> (\<exists>b. books s bid = Some b \<and> issued_to b mid \<noteq> None)"
    using borrowed_member_iff [OF _ assms(2), of bid] by (simp add: has_loan_def)
next
  fix r s1
  assume "Library_issue_book s bid mid now = (Inr r, s1)"
  then show "\<exists>b1 m1. books s1 bid = Some b1 \<and> issued_to b1 mid = Some r
      \<and> members s1 mid = Some m1 \<and> count_list (borrowed_books m1) bid = 1"
    by (rule issue_book_records [OF assms(1)])
next
  fix info s1
  assume "Library_return_book s bid mid now = (Inr info, s1)"
  then show "\<exists>b1 m1. books s1 bid = Some b1 \<and> issued_to b1 mid = None
      \<and> members s1 mid = Some m1 \<and> count_list (borrowed_books m1) bid = 0"
    by (rule return_book_clears [OF assms(1)])
next
  fix r s1
  assume run: "Library_issue_book s bid mid now = (Inr r, s1)"
  then have "s1 = snd (Library_issue_book s bid mid now)" by simp
  then have reach1: "reachable s1" using assms(1) by (simp add: reachable.issue_book)
  from issue_book_records [OF assms(1) run]
  obtain b1 m1 where b1: "books s1 bid = Some b1" and rec: "issued_to b1 mid = Some r"
    and m1: "members s1 mid = Some m1"
    by blast
  from rec have held: "issued_to b1 mid \<noteq> None" by simp
  show "\<exists>info s2 b2 m2. Library_return_book s1 bid mid now' = (Inr info, s2)
      \<and> books s2 bid = Some b2 \<and> issued_to b2 mid = None
      \<and> members s2 mid = Some m2 \<and> count_list (borrowed_books m2) bid = 0"
    by (rule return_book_of_loan [OF reach1 m1 b1 held])
next
  assume "\<exists>b. books s bid = Some b \<and> issued_to b mid \<noteq> None"
  then obtain b where b: "books s bid = Some b" and held: "issued_to b mid \<noteq> None"
    by blast
  show "\<exists>info s1 b1 m1. Library_return_book s bid mid now = (Inr info, s1)
      \<and> books s1 bid = Some b1 \<and> issued_to b1 mid = None
      \<and> members s1 mid = Some m1 \<and> count_list (borrowed_books m1) bid = 0"
    by (rule return_book_of_loan [OF assms b held])
next
  assume "\<exists>b. books s bid = Some b \<and> is_available b \<and> issued_to b mid = None"
  then obtain b where "books s bid = Some b" and "is_available b" and "issued_to b mid = None"
    by blast
  then show "\<exists>r s1. Library_issue_book s bid mid now = (Inr r, s1)"
    using Library_issue_book_free [OF _ assms(2)] by blast
qed

lemma example_library3_reachable: "reachable example_library3"
  unfolding example_library3_def
  using example_library2_reachable by (rule reachable.issue_book)

lemma example_library3_member:
  "members example_library3 100 = Some (example_member\<lparr>borrowed_books := [1]\<rparr>)"
  by (simp add: example_library3_def example_record_def example_library2_eq
      example_library1_eq example_member_def Library_issue_book_def Book_issue_book_def
      is_available_def Member_borrow_book_def Let_def loan_period_days_def)

lemma example_library3_book:
  "books example_library3 1 =
     Some \<lparr>book_id = 1, title = ''Dune'', author = ''Frank Herbert'',
            isbn = ''9780441013593'', total_copies = 2, available_copies = 1,
            issued_to = [100 \<mapsto> example_record]\<rparr>"
  by (simp add: example_library3_def example_record_def example_library2_eq
      example_library1_eq Library_issue_book_def Book_issue_book_def
      is_available_def Let_def loan_period_days_def)

lemma example_return:
  "Library_return_book example_library3 1 100 (timedelta_of_days 20) =
     (Inr \<lparr>days_borrowed = 20, is_overdue = True, overdue_days = 6, fine = 6\<rparr>,
      example_library4)"
proof -
  have six: "timedelta_of_days 20 - timedelta_of_days 14 = timedelta_of_days 6"
    by (simp add: timedelta_of_days_def)
  have late: "timedelta_of_days 14 < timedelta_of_days 20"
    by (simp add: timedelta_of_days_def day_def)
  show ?thesis
    using late
    by (simp add: example_library4_def Library_return_book_def Book_return_book_def
        example_library3_member example_library3_book example_record_def Let_def six
        days_of_whole_days daily_fine_rate_def)
qed

lemma example_library4_member:
  "members example_library4 100 = Some (example_member\<lparr>total_fines := 6\<rparr>)"
proof -
  have late: "timedelta_of_days 14 < timedelta_of_days 20"
    by (simp add: timedelta_of_days_def day_def)
  have six: "timedelta_of_days 20 - timedelta_of_days 14 = timedelta_of_days 6"
    by (simp add: timedelta_of_days_def)
  show ?thesis
    using late
    by (simp add: example_library4_def Library_return_book_def Book_return_book_def
        example_library3_member example_library3_book example_record_def Let_def six
        days_of_whole_days daily_fine_rate_def Member_return_book_def Member_add_fine_def
        example_member_def)
qed


theorem borrowed_iff_loan_witness:
  "reachable example_library2 \<and> members example_library2 100 = Some example_member
   \<and> 1 \<notin> set (borrowed_books example_member)
   \<and> \<not> (\<exists>b. books example_library2 1 = Some b \<and> issued_to b 100 \<noteq> None)
   \<and> Library_issue_book example_library2 1 100 0 = (Inr example_record, example_library3)
   \<and> (\<exists>b1 m1. books example_library3 1 = Some b1 \<and> issued_to b1 100 = Some example_record
          \<and> members example_library3 100 = Some m1
          \<and> count_list (borrowed_books m1) 1 = 1)
   \<and> reachable example_library3
   \<and> members example_library3 100 = Some (example_member\<lparr>borrowed_books := [1]\<rparr>)
   \<and> 1 \<in> set (borrowed_books (example_member\<lparr>borrowed_books := [1]\<rparr>))
   \<and> (\<exists>b. books example_library3 1 = Some b \<and> issued_to b 100 \<noteq> None)
   \<and> Library_return_book example_library3 1 100 (timedelta_of_days 20) =
       (Inr \<lparr>days_borrowed = 20, is_overdue = True, overdue_days = 6, fine = 6\<rparr>,
        example_library4)
   \<and> (\<exists>b1 m1. books example_library4 1 = Some b1 \<and> issued_to b1 100 = None
          \<and> members example_library4 100 = Some m1
          \<and> count_list (borrowed_books m1) 1 = 0)
   \<and> members example_library4 100 = Some (example_member\<lparr>total_fines := 6\<rparr>)
   \<and> borrowed_books (example_member\<lparr>total_fines := 6\<rparr>) = []"
proof -
  have absent: "1 \<notin> set (borrowed_books example_member)"
    by (simp add: example_member_def)
  have present: "1 \<in> set (borrowed_books (example_member\<lparr>borrowed_books := [1]\<rparr>))"
    by simp
  have empty: "borrowed_books (example_member\<lparr>total_fines := 6\<rparr>) = []"
    by (simp add: example_member_def)
  note at2 = borrowed_iff_loan [OF example_library2_reachable example_library2_member,
      of 1 0 "timedelta_of_days 20"]
  note at3 = borrowed_iff_loan [OF example_library3_reachable example_library3_member,
      of 1 "timedelta_of_days 20" "timedelta_of_days 20"]
  have a: "\<not> (\<exists>b. books example_library2 1 = Some b \<and> issued_to b 100 \<noteq> None)"
    using at2 absent by blast
  have b: "\<exists>b1 m1. books example_library3 1 = Some b1 \<and> issued_to b1 100 = Some example_record
          \<and> members example_library3 100 = Some m1
          \<and> count_list (borrowed_books m1) 1 = 1"
    using at2 example_issue by blast
  have c: "\<exists>b. books example_library3 1 = Some b \<and> issued_to b 100 \<noteq> None"
    using at3 present by blast
  have d: "\<exists>b1 m1. books example_library4 1 = Some b1 \<and> issued_to b1 100 = None
          \<and> members example_library4 100 = Some m1
          \<and> count_list (borrowed_books m1) 1 = 0"
    using at3 example_return by blast
  show ?thesis
    using example_library2_reachable example_library2_member absent a example_issue b
      example_library3_reachable example_library3_member present c example_return d
      example_library4_member empty
    by blast
qed

text \<open>
  C6. In every reachable ledger state, \<open>add_book\<close> with a positive number of copies
  and an ISBN that is indexed after stripping creates no entry: it adds the copies to
  the total and available copies of the entry the index names and returns that
  identifier. Registering an ISBN that is not indexed with 2 copies and then again with
  3 copies creates exactly one entry, under a fresh identifier that both calls return,
  with 5 total and 5 available copies.
\<close>

theorem add_book_merge:
  "(reachable s \<and> 0 < copies \<and> isbn_index s (str_strip isb) = Some bid \<longrightarrow>
      (\<exists>b s'. books s bid = Some b
         \<and> Library_add_book s ttl auth isb copies = (Inr bid, s')
         \<and> s' = s\<lparr>books := (books s)(bid \<mapsto>
                    b\<lparr>total_copies := total_copies b + copies,
                      available_copies := available_copies b + copies\<rparr>)\<rparr>
         \<and> dom (books s') = dom (books s)))
   \<and> (reachable s \<and> isbn_index s (str_strip isb) = None \<longrightarrow>
      (\<exists>bid s1 s2 b2. Library_add_book s ttl auth isb 2 = (Inr bid, s1)
         \<and> Library_add_book s1 ttl' auth' isb 3 = (Inr bid, s2)
         \<and> bid \<notin> dom (books s)
         \<and> dom (books s1) = insert bid (dom (books s))
         \<and> dom (books s2) = dom (books s1)
         \<and> books s2 bid = Some b2
         \<and> isbn b2 = str_strip isb \<and> total_copies b2 = 5 \<and> available_copies b2 = 5))"
proof (intro conjI impI)
  assume h: "reachable s \<and> 0 < copies \<and> isbn_index s (str_strip isb) = Some bid"
  then have inv: "lib_inv s" by (simp add: reachable_lib_inv)
  from h have "books s bid \<noteq> None"
    using lib_invD(3) [OF inv] by blast
  then obtain b where b: "books s bid = Some b" by blast
  let ?s' = "s\<lparr>books := (books s)(bid \<mapsto>
                    b\<lparr>total_copies := total_copies b + copies,
                      available_copies := available_copies b + copies\<rparr>)\<rparr>"
  have run: "Library_add_book s ttl auth isb copies = (Inr bid, ?s')"
    using h b by (simp add: Library_add_book_def Let_def)
  have "dom (books ?s') = dom (books s)"
    using b by auto
  then show "\<exists>b s'. books s bid = Some b
         \<and> Library_add_book s ttl auth isb copies = (Inr bid, s')
         \<and> s' = s\<lparr>books := (books s)(bid \<mapsto>
                    b\<lparr>total_copies := total_copies b + copies,
                      available_copies := available_copies b + copies\<rparr>)\<rparr>
         \<and> dom (books s') = dom (books s)"
    using b run by blast
next
  assume h: "reachable s \<and> isbn_index s (str_strip isb) = None"
  then have inv: "lib_inv s" by (simp add: reachable_lib_inv)
  let ?bid = "book_id_counter s"
  let ?b1 = "\<lparr>book_id = ?bid, title = str_title (str_strip ttl),
               author = str_title (str_strip auth), isbn = str_strip isb,
               total_copies = 2, available_copies = 2, issued_to = Map.empty\<rparr>"
  let ?s1 = "s\<lparr>books := (books s)(?bid \<mapsto> ?b1),
               isbn_index := (isbn_index s)(str_strip isb \<mapsto> ?bid),
               book_id_counter := ?bid + 1\<rparr>"
  let ?b2 = "?b1\<lparr>total_copies := 5, available_copies := 5\<rparr>"
  let ?s2 = "?s1\<lparr>books := (books ?s1)(?bid \<mapsto> ?b2)\<rparr>"
  have run1: "Library_add_book s ttl auth isb 2 = (Inr ?bid, ?s1)"
    using h by (simp add: Library_add_book_def Let_def Book_init_def)
  have run2: "Library_add_book ?s1 ttl' auth' isb 3 = (Inr ?bid, ?s2)"
    by (simp add: Library_add_book_def Let_def)
  have fresh: "?bid \<notin> dom (books s)"
    using lib_invD(1) [OF inv, of ?bid] by auto
  have d1: "dom (books ?s1) = insert ?bid (dom (books s))" by simp
  have d2: "dom (books ?s2) = dom (books ?s1)" by auto
  have b2: "books ?s2 ?bid = Some ?b2" by simp
  have f: "isbn ?b2 = str_strip isb \<and> total_copies ?b2 = 5 \<and> available_copies ?b2 = 5"
    by simp
  show "\<exists>bid s1 s2 b2. Library_add_book s ttl auth isb 2 = (Inr bid, s1)
         \<and> Library_add_book s1 ttl' auth' isb 3 = (Inr bid, s2)
         \<and> bid \<notin> dom (books s)
         \<and> dom (books s1) = insert bid (dom (books s))
         \<and> dom (books s2) = dom (books s1)
         \<and> books s2 bid = Some b2
         \<and> isbn b2 = str_strip isb \<and> total_copies b2 = 5 \<and> available_copies b2 = 5"
    using run1 run2 fresh d1 d2 b2 f by blast
qed

theorem add_book_merge_witness:
  "reachable example_library1 \<and> (0::int) < 3
   \<and> isbn_index example_library1 (str_strip ''9780441013593 '') = Some 1
   \<and> (\<exists>b s'. books example_library1 1 = Some b
         \<and> Library_add_book example_library1 ''Dune'' ''F. Herbert'' ''9780441013593 '' 3
             = (Inr 1, s')
         \<and> s' = example_library1\<lparr>books := (books example_library1)(1 \<mapsto>
                    b\<lparr>total_copies := total_copies b + 3,
                      available_copies := available_copies b + 3\<rparr>)\<rparr>
         \<and> dom (books s') = dom (books example_library1))
   \<and> reachable example_library0
   \<and> isbn_index example_library0 (str_strip '' 9780441013593 '') = None
   \<and> (\<exists>bid s1 s2 b2.
         Library_add_book example_library0 '' dune'' ''frank herbert'' '' 9780441013593 '' 2
           = (Inr bid, s1)
         \<and> Library_add_book s1 ''Dune'' ''F. Herbert'' '' 9780441013593 '' 3 = (Inr bid, s2)
         \<and> bid \<notin> dom (books example_library0)
         \<and> dom (books s1) = insert bid (dom (books example_library0))
         \<and> dom (books s2) = dom (books s1)
         \<and> books s2 bid = Some b2
         \<and> isbn b2 = str_strip '' 9780441013593 ''
         \<and> total_copies b2 = 5 \<and> available_copies b2 = 5)"
proof -
  have h1: "isbn_index example_library1 (str_strip ''9780441013593 '') = Some 1"
    by (simp add: example_library1_eq str_defs)
  have h2: "isbn_index example_library0 (str_strip '' 9780441013593 '') = None"
    by (simp add: example_library0_def Library_init_def)
  have p: "(0::int) < 3" by simp
  have i1: "\<exists>b s'. books example_library1 1 = Some b
         \<and> Library_add_book example_library1 ''Dune'' ''F. Herbert'' ''9780441013593 '' 3
             = (Inr 1, s')
         \<and> s' = example_library1\<lparr>books := (books example_library1)(1 \<mapsto>
                    b\<lparr>total_copies := total_copies b + 3,
                      available_copies := available_copies b + 3\<rparr>)\<rparr>
         \<and> dom (books s') = dom (books example_library1)"
    using add_book_merge [where s = example_library1 and copies = 3
        and isb = "''9780441013593 ''" and bid = 1 and ttl = "''Dune''"
        and auth = "''F. Herbert''"]
      example_library1_reachable h1 p
    by blast
  have i2: "\<exists>bid s1 s2 b2.
         Library_add_book example_library0 '' dune'' ''frank herbert'' '' 9780441013593 '' 2
           = (Inr bid, s1)
         \<and> Library_add_book s1 ''Dune'' ''F. Herbert'' '' 9780441013593 '' 3 = (Inr bid, s2)
         \<and> bid \<notin> dom (books example_library0)
         \<and> dom (books s1) = insert bid (dom (books example_library0))
         \<and> dom (books s2) = dom (books s1)
         \<and> books s2 bid = Some b2
         \<and> isbn b2 = str_strip '' 9780441013593 ''
         \<and> total_copies b2 = 5 \<and> available_copies b2 = 5"
    using add_book_merge [where s = example_library0 and isb = "'' 9780441013593 ''"
        and ttl = "'' dune''" and auth = "''frank herbert''" and ttl' = "''Dune''"
        and auth' = "''F. Herbert''"]
      example_library0_reachable h2
    by blast
  show ?thesis
    using example_library1_reachable example_library0_reachable h1 h2 p i1 i2
    by blast
qed

end
